theory Spec2Isabelle
  imports Main "HOL-Library.Sublist"
begin

section \<open>The \<open>path\<close> module of Node.js, POSIX variant\<close>

text \<open>
  The extension imports Node's \<open>path\<close> module and uses \<open>path.sep\<close>, \<open>path.extname\<close>,
  \<open>path.join\<close>, \<open>path.relative\<close> (and, through \<open>path.relative\<close>, \<open>path.resolve\<close> and
  \<open>process.cwd()\<close>). The module belongs to the Node runtime, not to the repository. It is
  modelled here for a POSIX host (separator \<open>/\<close>), at the level of path segments: Node's
  implementation scans characters, and computes what these definitions compute. Strings are
  \<^typ>\<open>string\<close>. The working directory of the process is an explicit argument \<open>cwd\<close>; on
  POSIX it is an absolute path.
\<close>

definition sep :: string where
  \<comment> \<open>\<open>path.sep\<close>\<close>
  "sep = ''/''"

fun segments :: "string \<Rightarrow> string list" where
  \<comment> \<open>the pieces of a path between slashes, empty pieces included\<close>
  "segments [] = [[]]"
| "segments (c # cs) =
     (if c = CHR ''/'' then [] # segments cs
      else (case segments cs of
              [] \<Rightarrow> [[c]]
            | s # ss \<Rightarrow> (c # s) # ss))"

fun arrayJoin :: "string \<Rightarrow> string list \<Rightarrow> string" where
  \<comment> \<open>\<open>Array.prototype.join\<close> on an array of strings\<close>
  "arrayJoin s [] = []"
| "arrayJoin s [x] = x"
| "arrayJoin s (x # y # ys) = x @ s @ arrayJoin s (y # ys)"

definition normStep :: "bool \<Rightarrow> string list \<Rightarrow> string \<Rightarrow> string list" where
  \<comment> \<open>one segment of \<open>normalizeString\<close>; the segments kept so far are a stack, last one first\<close>
  "normStep allowAboveRoot stk seg =
     (if seg = [] \<or> seg = ''.'' then stk
      else if seg = ''..'' then
        (case stk of
           [] \<Rightarrow> if allowAboveRoot then [''..''] else []
         | t # rest \<Rightarrow>
             if t = ''..'' then (if allowAboveRoot then ''..'' # stk else stk) else rest)
      else seg # stk)"

definition normSegs :: "bool \<Rightarrow> string list \<Rightarrow> string list \<Rightarrow> string list" where
  "normSegs allowAboveRoot stk segs = foldl (normStep allowAboveRoot) stk segs"

definition normalizeString :: "string \<Rightarrow> bool \<Rightarrow> string" where
  \<comment> \<open>Node's internal \<open>normalizeString(path, allowAboveRoot, '/', isPosixPathSeparator)\<close>:
      resolves \<open>.\<close> and \<open>..\<close> segments and drops empty ones\<close>
  "normalizeString p allowAboveRoot =
     arrayJoin ''/'' (rev (normSegs allowAboveRoot [] (segments p)))"

definition isAbsolute :: "string \<Rightarrow> bool" where
  \<comment> \<open>\<open>path.charCodeAt(0) === CHAR_FORWARD_SLASH\<close>\<close>
  "isAbsolute p = (case p of [] \<Rightarrow> False | c # _ \<Rightarrow> c = CHR ''/'')"

definition trailingSeparator :: "string \<Rightarrow> bool" where
  \<comment> \<open>\<open>path.charCodeAt(path.length - 1) === CHAR_FORWARD_SLASH\<close>\<close>
  "trailingSeparator p = (p \<noteq> [] \<and> last p = CHR ''/'')"

definition path_normalize :: "string \<Rightarrow> string" where
  \<comment> \<open>\<open>path.normalize\<close>\<close>
  "path_normalize p =
     (if p = [] then ''.''
      else
        let q = normalizeString p (\<not> isAbsolute p) in
        if q = [] then
          (if isAbsolute p then ''/'' else if trailingSeparator p then ''./'' else ''.'')
        else
          let q' = (if trailingSeparator p then q @ ''/'' else q) in
          if isAbsolute p then ''/'' @ q' else q')"

definition path_join :: "string list \<Rightarrow> string" where
  \<comment> \<open>\<open>path.join(...args)\<close>: empty arguments are skipped, the rest joined with \<open>/\<close> and
      normalized\<close>
  "path_join args =
     (let joined = filter (\<lambda>a. a \<noteq> []) args in
      if joined = [] then ''.'' else path_normalize (arrayJoin ''/'' joined))"

fun resolveLoop :: "string list \<Rightarrow> string \<Rightarrow> bool \<Rightarrow> string \<times> bool" where
  \<comment> \<open>the loop of \<open>path.resolve\<close>: paths are visited from the last argument to the first,
      then the working directory, until an absolute one has been prepended\<close>
  "resolveLoop [] resolvedPath resolvedAbsolute = (resolvedPath, resolvedAbsolute)"
| "resolveLoop (p # ps) resolvedPath resolvedAbsolute =
     (if resolvedAbsolute then (resolvedPath, resolvedAbsolute)
      else if p = [] then resolveLoop ps resolvedPath resolvedAbsolute
      else resolveLoop ps (p @ ''/'' @ resolvedPath) (isAbsolute p))"

definition path_resolve :: "string \<Rightarrow> string list \<Rightarrow> string" where
  \<comment> \<open>\<open>path.resolve(...args)\<close> in a process whose working directory is \<open>cwd\<close>\<close>
  "path_resolve cwd args =
     (case resolveLoop (rev args @ [cwd]) [] False of
        (resolvedPath, resolvedAbsolute) \<Rightarrow>
          let q = normalizeString resolvedPath (\<not> resolvedAbsolute) in
          if resolvedAbsolute then ''/'' @ q
          else if q \<noteq> [] then q else ''.'')"

fun dropCommon :: "string list \<Rightarrow> string list \<Rightarrow> string list \<times> string list" where
  \<comment> \<open>removes the longest common prefix of two segment lists\<close>
  "dropCommon (x # xs) (y # ys) = (if x = y then dropCommon xs ys else (x # xs, y # ys))"
| "dropCommon xs ys = (xs, ys)"

definition pathSegments :: "string \<Rightarrow> string list" where
  \<comment> \<open>the non-empty segments of a path\<close>
  "pathSegments p = filter (\<lambda>s. s \<noteq> []) (segments p)"

definition path_relative :: "string \<Rightarrow> string \<Rightarrow> string \<Rightarrow> string" where
  \<comment> \<open>\<open>path.relative(from, to)\<close>: both paths are resolved against the working directory;
      one \<open>..\<close> for each segment of \<open>from\<close> below the common directory, then the segments of
      \<open>to\<close> below it\<close>
  "path_relative cwd from to =
     (if from = to then []
      else
        let from' = path_resolve cwd [from]; to' = path_resolve cwd [to] in
        if from' = to' then []
        else
          case dropCommon (pathSegments from') (pathSegments to') of
            (fs, ts) \<Rightarrow> arrayJoin ''/'' (replicate (length fs) ''..'' @ ts))"

definition extname :: "string \<Rightarrow> string" where
  \<comment> \<open>\<open>path.extname\<close>: from the last dot of the last path component (trailing slashes
      ignored) to its end; empty when that component has no dot, starts with its only dot,
      or is \<open>..\<close>\<close>
  "extname p =
     (let rbase = takeWhile (\<lambda>c. c \<noteq> CHR ''/'') (dropWhile (\<lambda>c. c = CHR ''/'') (rev p)) in
      if CHR ''.'' \<notin> set rbase then []
      else
        let rext = takeWhile (\<lambda>c. c \<noteq> CHR ''.'') rbase in
        if Suc (length rext) = length rbase \<or> rbase = ''..'' then []
        else CHR ''.'' # rev rext)"

section \<open>The editor host\<close>

text \<open>
  What the extension reads and writes in its host: the working directory of the extension
  process (\<open>process.cwd()\<close>), the file name of the document in the active text editor if
  there is one (\<open>vscode.window.activeTextEditor\<close>), the information messages shown so far
  (\<open>vscode.window.showInformationMessage\<close>), the clipboard (\<open>vscode.env.clipboard\<close>) and the
  status bar messages shown so far (\<open>vscode.window.setStatusBarMessage\<close>).
  A thrown value is a string, as every \<open>throw\<close> of the extension throws one; \<open>Inl\<close> carries it.
\<close>

record host =
  cwd :: string
  activeTextEditor :: "string option"
  informationMessages :: "string list"
  clipboard :: string
  statusBarMessages :: "string list"

type_synonym 'a result = "string + 'a"

definition getCurrentFilePath :: "host \<Rightarrow> string result" where
  "getCurrentFilePath h =
     (case activeTextEditor h of
        None \<Rightarrow> Inl ''No active editor''
      | Some fileName \<Rightarrow> Inr fileName)"

definition pasteToClipboard :: "string \<Rightarrow> host \<Rightarrow> host" where
  "pasteToClipboard input h =
     h\<lparr>clipboard := input,
       statusBarMessages := statusBarMessages h
         @ [CHR 0x22 # input @ CHR 0x22 # '' was copied to the clipboard.'']\<rparr>"

definition log :: "string \<Rightarrow> host \<Rightarrow> host" where
  \<comment> \<open>\<open>log\<close> of src/extension.ts, unnamed/part_001 and unnamed/part_002\<close>
  "log message h = h\<lparr>informationMessages := informationMessages h @ [message]\<rparr>"

type_synonym command = "host \<Rightarrow> unit result \<times> host"

definition wrapException :: "command \<Rightarrow> command" where
  \<comment> \<open>\<open>wrapException\<close> of src/extension.ts: \<open>try { return f(); } catch (e) { log(...) }\<close>\<close>
  "wrapException f = (\<lambda>h.
     case f h of
       (Inr u, h') \<Rightarrow> (Inr u, h')
     | (Inl e, h') \<Rightarrow> (Inr (), log (''vscode-chromium-test error: '' @ e) h'))"

definition wrap_exception :: "command \<Rightarrow> command" where
  \<comment> \<open>\<open>wrap_exception\<close>, local to \<open>activate\<close> in unnamed/part_001:
      \<open>try { f(); } catch (e) { log(...) }\<close>\<close>
  "wrap_exception f = (\<lambda>h.
     case f h of
       (Inr u, h') \<Rightarrow> (Inr (), h')
     | (Inl e, h') \<Rightarrow> (Inr (), log (''vscode-chromium-test: '' @ e) h'))"

section \<open>ChromiumTestManager\<close>

record manager =
  rootDir :: string
  compileTarget :: string

definition getCompileCommand :: "manager \<Rightarrow> string \<Rightarrow> string" where
  "getCompileCommand m target_binary =
     ''autoninja -C out/'' @ compileTarget m @ '' '' @ target_binary"

definition getWebTestCommand :: "string \<Rightarrow> manager \<Rightarrow> string \<Rightarrow> string result" where
  \<comment> \<open>src/extension.ts, and with the same body unnamed/part_001; the first argument is the
      working directory that \<open>path.relative\<close> reads\<close>
  "getWebTestCommand wd m file_path =
     (if extname file_path \<notin> set [''.html'', ''.php''] then
        Inl (''Wrong extension('' @ extname file_path @ '') for web test. Expect .html or .php.'')
      else
        let web_test_path = path_join [rootDir m, ''third_party'', ''blink'', ''web_tests''];
            test_script_path = path_join [''third_party'', ''blink'', ''tools'', ''run_web_tests.py''];
            test_path = path_relative wd web_test_path file_path
        in Inr (test_script_path @ '' -t '' @ compileTarget m @ '' '' @ test_path))"

definition getWebTestCommand_sep :: "string \<Rightarrow> manager \<Rightarrow> string \<Rightarrow> string" where
  \<comment> \<open>unnamed/part_000: no extension check, components joined with \<open>path.sep\<close>\<close>
  "getWebTestCommand_sep wd m file_path =
     (let web_test_path = arrayJoin sep [rootDir m, ''third_party'', ''blink'', ''web_tests''];
          test_script_path = arrayJoin sep [''third_party'', ''blink'', ''tools'', ''run_web_tests.py''];
          test_path = path_relative wd web_test_path file_path
      in test_script_path @ '' -t '' @ compileTarget m @ '' '' @ test_path)"

definition getWebTestCommand_sep_checked :: "string \<Rightarrow> manager \<Rightarrow> string \<Rightarrow> string result" where
  \<comment> \<open>unnamed/part_002: the extension is compared with \<open>'html'\<close> and \<open>'php'\<close>, components
      are joined with \<open>path.sep\<close>\<close>
  "getWebTestCommand_sep_checked wd m file_path =
     (if extname file_path \<notin> set [''html'', ''php''] then
        Inl (''Wrong extension('' @ extname file_path @ '') for web test. Expect .html or .php.'')
      else
        let web_test_path = arrayJoin sep [rootDir m, ''third_party'', ''blink'', ''web_tests''];
            test_script_path = arrayJoin sep [''third_party'', ''blink'', ''tools'', ''run_web_tests.py''];
            test_path = path_relative wd web_test_path file_path
        in Inr (test_script_path @ '' -t '' @ compileTarget m @ '' '' @ test_path))"

definition getBrowserTestCommand :: "manager \<Rightarrow> string \<Rightarrow> string" where
  \<comment> \<open>unnamed/part_000 and unnamed/part_002\<close>
  "getBrowserTestCommand m file_path = []"

definition getCppTestCommand :: "manager \<Rightarrow> string \<Rightarrow> string \<Rightarrow> string" where
  "getCppTestCommand m test_executable test_name =
     (let absolate_executable_path =
            path_join [rootDir m, ''out'', compileTarget m, test_executable]
      in absolate_executable_path @ '' --gtest_filter='' @ test_name)"

definition getTestCommand :: "host \<Rightarrow> manager \<Rightarrow> string result" where
  \<comment> \<open>the method of src/extension.ts and the function of the same name in unnamed/part_001;
      operands are evaluated left to right: the compile command, the current file path
      (which may throw), the web test command (which may throw)\<close>
  "getTestCommand h m =
     (let compile = getCompileCommand m ''content_shell'' in
      case getCurrentFilePath h of
        Inl e \<Rightarrow> Inl e
      | Inr file_path \<Rightarrow>
          (case getWebTestCommand (cwd h) m file_path of
             Inl e \<Rightarrow> Inl e
           | Inr web \<Rightarrow> Inr (compile @ '' && '' @ web)))"

definition copyWebTestCommand :: "manager \<Rightarrow> command" where
  \<comment> \<open>the function registered as \<open>chromium.copyWebTestCommand\<close>, before it is wrapped:
      \<open>() => { pasteToClipboard(getTestCommand()); }\<close>\<close>
  "copyWebTestCommand m = (\<lambda>h.
     case getTestCommand h m of
       Inl e \<Rightarrow> (Inl e, h)
     | Inr command \<Rightarrow> (Inr (), pasteToClipboard command h))"

section \<open>The methods on the object state\<close>

text \<open>
  The definitions above give each method as a function of the fields it reads. Here the
  manager object is a state that a method body could also write: a method takes the object
  \<open>this\<close> and gives back what it returns or throws together with the object after the call.
  Bodies are built from reads of a field (\<open>this.rootDir\<close>, \<open>this.compileTarget\<close>), assignments
  to a field, \<open>return\<close>, \<open>throw\<close>, calls of module functions and sequencing. The constructor is
  the only body of the class with assignments.
\<close>

type_synonym 'a body = "manager \<Rightarrow> 'a result \<times> manager"

definition returns :: "'a \<Rightarrow> 'a body" where
  \<comment> \<open>\<open>return x\<close>\<close>
  "returns x = (\<lambda>this. (Inr x, this))"

definition throws :: "string \<Rightarrow> 'a body" where
  \<comment> \<open>\<open>throw e\<close>\<close>
  "throws e = (\<lambda>this. (Inl e, this))"

definition this_rootDir :: "string body" where
  \<comment> \<open>the expression \<open>this.rootDir\<close>\<close>
  "this_rootDir = (\<lambda>this. (Inr (rootDir this), this))"

definition this_compileTarget :: "string body" where
  \<comment> \<open>the expression \<open>this.compileTarget\<close>\<close>
  "this_compileTarget = (\<lambda>this. (Inr (compileTarget this), this))"

definition assign_rootDir :: "string \<Rightarrow> unit body" where
  \<comment> \<open>the statement \<open>this.rootDir = v\<close>\<close>
  "assign_rootDir v = (\<lambda>this. (Inr (), this\<lparr>rootDir := v\<rparr>))"

definition assign_compileTarget :: "string \<Rightarrow> unit body" where
  \<comment> \<open>the statement \<open>this.compileTarget = v\<close>\<close>
  "assign_compileTarget v = (\<lambda>this. (Inr (), this\<lparr>compileTarget := v\<rparr>))"

definition call_function :: "'a result \<Rightarrow> 'a body" where
  \<comment> \<open>a call of a module function, which has no access to \<open>this\<close>\<close>
  "call_function r = (\<lambda>this. (r, this))"

definition andThen :: "'a body \<Rightarrow> ('a \<Rightarrow> 'b body) \<Rightarrow> 'b body" where
  \<comment> \<open>sequencing: a throw ends the body, otherwise the rest runs on the object as the first
      part left it\<close>
  "andThen first rest = (\<lambda>this.
     case first this of
       (Inl e, this') \<Rightarrow> (Inl e, this')
     | (Inr x, this') \<Rightarrow> rest x this')"

definition constructor :: "string \<Rightarrow> string option \<Rightarrow> unit body" where
  \<comment> \<open>\<open>constructor(rootDir, compileTarget = "Default")\<close>; \<open>None\<close> is the omitted argument\<close>
  "constructor rootDir' compileTarget' =
     andThen (assign_rootDir rootDir') (\<lambda>_.
       assign_compileTarget (case compileTarget' of None \<Rightarrow> ''Default'' | Some t \<Rightarrow> t))"

definition getCompileCommand_method :: "string \<Rightarrow> string body" where
  "getCompileCommand_method target_binary =
     andThen this_compileTarget (\<lambda>compileTarget'.
       returns (''autoninja -C out/'' @ compileTarget' @ '' '' @ target_binary))"

definition getWebTestCommand_method :: "string \<Rightarrow> string \<Rightarrow> string body" where
  \<comment> \<open>the first argument is the working directory that \<open>path.relative\<close> reads\<close>
  "getWebTestCommand_method wd file_path =
     (if extname file_path \<notin> set [''.html'', ''.php''] then
        throws (''Wrong extension('' @ extname file_path
                 @ '') for web test. Expect .html or .php.'')
      else
        andThen this_rootDir (\<lambda>rootDir'.
          let web_test_path = path_join [rootDir', ''third_party'', ''blink'', ''web_tests''];
              test_script_path =
                path_join [''third_party'', ''blink'', ''tools'', ''run_web_tests.py''];
              test_path = path_relative wd web_test_path file_path
          in andThen this_compileTarget (\<lambda>compileTarget'.
               returns (test_script_path @ '' -t '' @ compileTarget' @ '' '' @ test_path))))"

definition getCppTestCommand_method :: "string \<Rightarrow> string \<Rightarrow> string body" where
  "getCppTestCommand_method test_executable test_name =
     andThen this_rootDir (\<lambda>rootDir'.
       andThen this_compileTarget (\<lambda>compileTarget'.
         let absolate_executable_path =
               path_join [rootDir', ''out'', compileTarget', test_executable]
         in returns (absolate_executable_path @ '' --gtest_filter='' @ test_name)))"

definition getTestCommand_method :: "host \<Rightarrow> string body" where
  \<comment> \<open>two method calls on \<open>this\<close> with a call of \<open>getCurrentFilePath\<close> between them\<close>
  "getTestCommand_method h =
     andThen (getCompileCommand_method ''content_shell'') (\<lambda>compile.
       andThen (call_function (getCurrentFilePath h)) (\<lambda>file_path.
         andThen (getWebTestCommand_method (cwd h) file_path) (\<lambda>web.
           returns (compile @ '' && '' @ web))))"

text \<open>A call of one of the four methods, named by the method and its arguments.\<close>

datatype operation =
    GetCompileCommand string
  | GetWebTestCommand string
  | GetCppTestCommand string string
  | GetTestCommand

fun invoke :: "host \<Rightarrow> operation \<Rightarrow> manager \<Rightarrow> string result \<times> manager" where
  "invoke h (GetCompileCommand target_binary) m = getCompileCommand_method target_binary m"
| "invoke h (GetWebTestCommand file_path) m = getWebTestCommand_method (cwd h) file_path m"
| "invoke h (GetCppTestCommand test_executable test_name) m =
     getCppTestCommand_method test_executable test_name m"
| "invoke h GetTestCommand m = getTestCommand_method h m"

section \<open>Auxiliary definitions\<close>

text \<open>
  Two predicates on path segments for the proofs about \<open>normalizeString\<close>, and the concrete
  manager and hosts at which the theorems below are instantiated: a checkout in
  \<open>/home/u/chromium/src\<close>, an editor that shows one of its web tests, and a window with no
  editor.
\<close>

definition isKept :: "string \<Rightarrow> bool" where
  \<comment> \<open>a segment that \<open>normalizeString\<close> does not skip\<close>
  "isKept s = (s \<noteq> [] \<and> s \<noteq> ''.'')"

definition isName :: "string \<Rightarrow> bool" where
  \<comment> \<open>a segment that names a directory entry\<close>
  "isName s = (s \<noteq> [] \<and> s \<noteq> ''.'' \<and> s \<noteq> ''..'')"

definition manager0 :: manager where
  "manager0 = \<lparr>rootDir = ''/home/u/chromium/src'', compileTarget = ''Default''\<rparr>"

definition host0 :: host where
  "host0 = \<lparr>cwd = ''/w'',
            activeTextEditor =
              Some ''/home/u/chromium/src/third_party/blink/web_tests/fast/dom/x.html'',
            informationMessages = [],
            clipboard = [],
            statusBarMessages = []\<rparr>"

definition host1 :: host where
  "host1 = \<lparr>cwd = ''/w'',
            activeTextEditor = None,
            informationMessages = [],
            clipboard = [],
            statusBarMessages = []\<rparr>"

section \<open>Splitting and joining at slashes\<close>

lemma segments_not_Nil: "segments p \<noteq> []"
  by (induction p) (auto split: list.splits)

lemma segments_append_slash: "segments (a @ CHR ''/'' # b) = segments a @ segments b"
proof (induction a)
  case Nil
  show ?case by simp
next
  case (Cons c a)
  obtain s ss where "segments a = s # ss"
    using segments_not_Nil [of a] by (cases "segments a") auto
  with Cons show ?case by simp
qed

lemma segments_snoc_slash: "segments (a @ ''/'') = segments a @ [[]]"
  using segments_append_slash [of a "[]"] by simp

lemma segments_no_slash: "s \<in> set (segments p) \<Longrightarrow> CHR ''/'' \<notin> set s"
  by (induction p arbitrary: s) (auto split: if_splits list.splits)

lemma segments_single: "CHR ''/'' \<notin> set s \<Longrightarrow> segments s = [s]"
  by (induction s) auto

lemma segments_arrayJoin:
  "xs \<noteq> [] \<Longrightarrow> \<forall>x\<in>set xs. CHR ''/'' \<notin> set x \<Longrightarrow> segments (arrayJoin ''/'' xs) = xs"
proof (induction "''/''" xs rule: arrayJoin.induct)
  case 1
  then show ?case by simp
next
  case (2 x)
  then show ?case by (simp add: segments_single)
next
  case (3 x y ys)
  then show ?case by (simp add: segments_append_slash segments_single)
qed

lemma arrayJoin_Nil_iff:
  "\<forall>x\<in>set xs. x \<noteq> [] \<Longrightarrow> arrayJoin s xs = [] \<longleftrightarrow> xs = []"
  by (induction s xs rule: arrayJoin.induct) auto

lemma arrayJoin_hd:
  "x \<noteq> [] \<Longrightarrow> arrayJoin s (x # xs) = hd x # tl (arrayJoin s (x # xs))"
  by (cases xs) (auto simp: neq_Nil_conv)

section \<open>Normalizing segment lists\<close>

text \<open>
  The central fact is \<open>normSegs_rev_normSegs\<close>: normalizing a path that has already been
  normalized (with \<open>..\<close> allowed above the root) gives what normalizing the original path
  gives, whatever directory the path is appended to.
\<close>

lemma normSegs_Nil [simp]: "normSegs b S [] = S"
  by (simp add: normSegs_def)

lemma normSegs_snoc [simp]: "normSegs b S (segs @ [c]) = normStep b (normSegs b S segs) c"
  by (simp add: normSegs_def)

lemma normSegs_Cons: "normSegs b S (c # segs) = normSegs b (normStep b S c) segs"
  by (simp add: normSegs_def)

lemma normSegs_append: "normSegs b S (xs @ ys) = normSegs b (normSegs b S xs) ys"
  by (simp add: normSegs_def)

lemma normStep_empty [simp]: "normStep b S [] = S"
  by (simp add: normStep_def)

lemma normStep_dot [simp]: "normStep b S ''.'' = S"
  by (simp add: normStep_def)

lemma normSegs_empty_segment [simp]: "normSegs b S [[]] = S"
  by (simp add: normSegs_Cons)

lemma normStep_name: "isName s \<Longrightarrow> normStep b S s = s # S"
  by (simp add: normStep_def isName_def)

lemma in_set_tl: "x \<in> set (tl xs) \<Longrightarrow> x \<in> set xs"
  by (cases xs) auto

lemma normStep_cases:
  "normStep b S c = S \<or> (normStep b S c = c # S \<and> c \<noteq> [] \<and> c \<noteq> ''.'') \<or>
   normStep b S c = tl S"
  unfolding normStep_def by (cases S) simp_all

lemma normStep_False_cases:
  "normStep False S c = S \<or> (normStep False S c = c # S \<and> isName c) \<or>
   normStep False S c = tl S"
  unfolding normStep_def isName_def by (cases S) simp_all

lemma normStep_all:
  assumes "\<forall>t\<in>set S. P t" and "c \<noteq> [] \<and> c \<noteq> ''.'' \<Longrightarrow> P c"
  shows "\<forall>t\<in>set (normStep b S c). P t"
proof -
  from normStep_cases [of b S c] consider
    "normStep b S c = S" | "normStep b S c = c # S" "c \<noteq> [] \<and> c \<noteq> ''.''" | "normStep b S c = tl S"
    by blast
  then show ?thesis
  proof cases
    case 1
    with assms(1) show ?thesis by simp
  next
    case 2
    with assms show ?thesis by simp
  next
    case 3
    with assms(1) show ?thesis by (auto dest!: in_set_tl)
  qed
qed

lemma normSegs_all:
  assumes "\<forall>t\<in>set S. P t" and "\<And>c. c \<in> set segs \<Longrightarrow> c \<noteq> [] \<and> c \<noteq> ''.'' \<Longrightarrow> P c"
  shows "\<forall>t\<in>set (normSegs b S segs). P t"
  using assms(2)
proof (induction segs rule: rev_induct)
  case Nil
  with assms(1) show ?case by simp
next
  case (snoc c segs)
  have "\<forall>t\<in>set (normSegs b S segs). P t"
    by (rule snoc.IH) (simp add: snoc.prems)
  moreover have "c \<noteq> [] \<and> c \<noteq> ''.'' \<Longrightarrow> P c"
    by (rule snoc.prems) simp
  ultimately have "\<forall>t\<in>set (normStep b (normSegs b S segs) c). P t"
    by (rule normStep_all)
  then show ?case by (simp only: normSegs_snoc)
qed

lemma normSegs_kept: "\<forall>t\<in>set (normSegs b [] segs). isKept t"
  by (rule normSegs_all) (simp_all add: isKept_def)

lemma normSegs_no_slash:
  "\<forall>t\<in>set (normSegs b [] (segments p)). CHR ''/'' \<notin> set t"
  by (rule normSegs_all) (simp_all add: segments_no_slash)

lemma normStep_False_all:
  assumes "\<forall>t\<in>set S. P t" and "isName c \<Longrightarrow> P c"
  shows "\<forall>t\<in>set (normStep False S c). P t"
proof -
  from normStep_False_cases [of S c] consider
    "normStep False S c = S" | "normStep False S c = c # S" "isName c" | "normStep False S c = tl S"
    by blast
  then show ?thesis
  proof cases
    case 1
    with assms(1) show ?thesis by simp
  next
    case 2
    with assms show ?thesis by simp
  next
    case 3
    with assms(1) show ?thesis by (auto dest!: in_set_tl)
  qed
qed

lemma normSegs_names: "\<forall>t\<in>set (normSegs False [] segs). isName t"
proof (induction segs rule: rev_induct)
  case Nil
  show ?case by simp
next
  case (snoc c segs)
  then have "\<forall>t\<in>set (normStep False (normSegs False [] segs) c). isName t"
    by (rule normStep_False_all)
  then show ?case by (simp only: normSegs_snoc)
qed

lemma normSegs_rev_names:
  "\<forall>t\<in>set T. isName t \<Longrightarrow> normSegs b S (rev T) = T @ S"
  by (induction T) (auto simp: normStep_name)

lemma normSegs_rev_normSegs:
  "normSegs b S (rev (normSegs True [] segs)) = normSegs b S segs"
proof (induction segs rule: rev_induct)
  case Nil
  show ?case by simp
next
  case (snoc c segs)
  define T where "T = normSegs True [] segs"
  have kept: "\<forall>t\<in>set T. isKept t"
    unfolding T_def by (rule normSegs_kept)
  have IH: "normSegs b S (rev T) = normSegs b S segs"
    unfolding T_def by (rule snoc.IH)
  have "normSegs b S (rev (normStep True T c)) = normStep b (normSegs b S (rev T)) c"
  proof (cases "c = [] \<or> c = ''.''")
    case True
    then show ?thesis by auto
  next
    case False
    note c = this
    show ?thesis
    proof (cases "c = ''..''")
      case False
      with c have "normStep True T c = c # T" by (simp add: normStep_def)
      then show ?thesis by simp
    next
      case True
      show ?thesis
      proof (cases T)
        case Nil
        with True have "normStep True T c = [c]" by (simp add: normStep_def)
        with Nil show ?thesis by (simp add: normSegs_Cons)
      next
        case (Cons t rest)
        show ?thesis
        proof (cases "t = ''..''")
          case True
          with Cons \<open>c = ''..''\<close> have "normStep True T c = c # T" by (simp add: normStep_def)
          then show ?thesis by simp
        next
          case False
          with Cons kept have "isName t" by (simp add: isName_def isKept_def)
          from False Cons \<open>c = ''..''\<close> have "normStep True T c = rest" by (simp add: normStep_def)
          moreover have "normStep b (normSegs b S (rev T)) c = normSegs b S (rev rest)"
            using Cons \<open>isName t\<close> False \<open>c = ''..''\<close>
            by (simp add: normStep_name) (simp add: normStep_def)
          ultimately show ?thesis by simp
        qed
      qed
    qed
  qed
  with IH show ?case by (simp add: T_def)
qed

lemma isName_kept: "isName t \<Longrightarrow> isKept t"
  by (simp add: isName_def isKept_def)

lemma isKept_not_Nil: "isKept t \<Longrightarrow> t \<noteq> []"
  by (simp add: isKept_def)

section \<open>Normalizing, resolving and relating paths\<close>

text \<open>
  \<open>path.resolve\<close> does not see whether its argument went through \<open>path.normalize\<close> first, and
  so neither does \<open>path.relative\<close>. An absolute path is resolved without the working directory.
\<close>

lemma normalizeString_Nil_iff:
  "normalizeString p b = [] \<longleftrightarrow> normSegs b [] (segments p) = []"
proof -
  have "\<forall>x\<in>set (rev (normSegs b [] (segments p))). x \<noteq> []"
    using normSegs_kept [of b "segments p"] by (auto dest: isKept_not_Nil)
  then show ?thesis
    unfolding normalizeString_def by (simp add: arrayJoin_Nil_iff)
qed

lemma segments_normalizeString:
  "normalizeString p b \<noteq> [] \<Longrightarrow>
   segments (normalizeString p b) = rev (normSegs b [] (segments p))"
proof -
  assume "normalizeString p b \<noteq> []"
  then have "rev (normSegs b [] (segments p)) \<noteq> []"
    by (simp add: normalizeString_Nil_iff)
  moreover have "\<forall>x\<in>set (rev (normSegs b [] (segments p))). CHR ''/'' \<notin> set x"
    using normSegs_no_slash [of b p] by simp
  ultimately show ?thesis
    unfolding normalizeString_def by (rule segments_arrayJoin)
qed

lemma normalizeString_relative:
  "normalizeString p b \<noteq> [] \<Longrightarrow> \<not> isAbsolute (normalizeString p b)"
proof -
  assume ne: "normalizeString p b \<noteq> []"
  let ?T = "rev (normSegs b [] (segments p))"
  from ne obtain x xs where T: "?T = x # xs"
    by (cases ?T) (auto simp: normalizeString_Nil_iff)
  then have "x \<in> set (normSegs b [] (segments p))"
    by (metis list.set_intros(1) set_rev)
  then have "x \<noteq> []" "CHR ''/'' \<notin> set x"
    using normSegs_kept [of b "segments p"] normSegs_no_slash [of b p]
    by (auto dest: isKept_not_Nil)
  then have "hd x \<noteq> CHR ''/''" by (cases x) auto
  moreover have "normalizeString p b = hd x # tl (arrayJoin ''/'' (x # xs))"
    unfolding normalizeString_def T using \<open>x \<noteq> []\<close> by (rule arrayJoin_hd)
  ultimately show ?thesis by (simp add: isAbsolute_def)
qed

lemma path_normalize_not_Nil: "path_normalize p \<noteq> []"
  by (simp add: path_normalize_def Let_def)

lemma isAbsolute_normalize: "p \<noteq> [] \<Longrightarrow> isAbsolute (path_normalize p) = isAbsolute p"
proof (cases "isAbsolute p")
  case True
  assume "p \<noteq> []"
  with True show ?thesis by (simp add: path_normalize_def Let_def isAbsolute_def)
next
  case False
  assume "p \<noteq> []"
  show ?thesis
  proof (cases "normalizeString p True = []")
    case True
    with False \<open>p \<noteq> []\<close> show ?thesis by (simp add: path_normalize_def Let_def isAbsolute_def)
  next
    case ne: False
    then have "\<not> isAbsolute (normalizeString p True)" by (rule normalizeString_relative)
    moreover from ne have "\<not> isAbsolute (normalizeString p True @ ''/'')"
      using \<open>\<not> isAbsolute (normalizeString p True)\<close>
      by (cases "normalizeString p True") (auto simp: isAbsolute_def)
    ultimately show ?thesis using False ne \<open>p \<noteq> []\<close>
      by (simp add: path_normalize_def Let_def)
  qed
qed

lemma normSegs_segments_normalize_rel:
  assumes "p \<noteq> []" and "\<not> isAbsolute p"
  shows "normSegs b S (segments (path_normalize p)) = normSegs b S (segments p)"
proof (cases "normalizeString p True = []")
  case True
  then have "normSegs True [] (segments p) = []" by (simp add: normalizeString_Nil_iff)
  then have "normSegs b S (segments p) = S"
    using normSegs_rev_normSegs [of b S "segments p"] by simp
  moreover have "normSegs b S (segments (path_normalize p)) = S"
    using True assms by (simp add: path_normalize_def Let_def normSegs_Cons)
  ultimately show ?thesis by simp
next
  case False
  then have seg: "segments (normalizeString p True) = rev (normSegs True [] (segments p))"
    by (rule segments_normalizeString)
  have "normSegs b S (segments (path_normalize p)) = normSegs b S (segments (normalizeString p True))"
    using False assms by (simp add: path_normalize_def Let_def segments_snoc_slash)
  also have "\<dots> = normSegs b S (segments p)"
    unfolding seg by (rule normSegs_rev_normSegs)
  finally show ?thesis .
qed

lemma normSegs_segments_normalize_abs:
  assumes "isAbsolute p"
  shows "normSegs False [] (segments (path_normalize p)) = normSegs False [] (segments p)"
proof -
  from assms have "p \<noteq> []" by (auto simp: isAbsolute_def)
  have names: "\<forall>t\<in>set (normSegs False [] (segments p)). isName t"
    by (rule normSegs_names)
  show ?thesis
  proof (cases "normalizeString p False = []")
    case True
    then have "normSegs False [] (segments p) = []" by (simp add: normalizeString_Nil_iff)
    moreover have "normSegs False [] (segments (path_normalize p)) = []"
      using True assms \<open>p \<noteq> []\<close> by (simp add: path_normalize_def Let_def normSegs_Cons)
    ultimately show ?thesis by simp
  next
    case False
    then have seg: "segments (normalizeString p False) = rev (normSegs False [] (segments p))"
      by (rule segments_normalizeString)
    have "normSegs False [] (segments (path_normalize p))
          = normSegs False [] (segments (normalizeString p False))"
      using False assms \<open>p \<noteq> []\<close>
      by (simp add: path_normalize_def Let_def segments_snoc_slash normSegs_Cons)
    also have "\<dots> = normSegs False [] (segments p)"
      unfolding seg using normSegs_rev_names [OF names, of False "[]"] by simp
    finally show ?thesis .
  qed
qed

lemma normalizeString_slash:
  "normalizeString (p @ ''/'') b = arrayJoin ''/'' (rev (normSegs b [] (segments p)))"
  by (simp add: normalizeString_def segments_snoc_slash)

lemma normalizeString_under:
  "normalizeString (w @ ''/'' @ p @ ''/'') b =
     arrayJoin ''/'' (rev (normSegs b (normSegs b [] (segments w)) (segments p)))"
proof -
  have "segments (w @ ''/'' @ p @ ''/'') = segments w @ segments p @ [[]]"
    using segments_append_slash [of w "p @ ''/''"] by (simp add: segments_snoc_slash)
  then show ?thesis
    by (simp add: normalizeString_def normSegs_append)
qed

lemma path_resolve_single:
  assumes "p \<noteq> []"
  shows "path_resolve wd [p] =
     (if isAbsolute p then ''/'' @ arrayJoin ''/'' (rev (normSegs False [] (segments p)))
      else if wd = [] then
        (let q = arrayJoin ''/'' (rev (normSegs True [] (segments p))) in
         if q \<noteq> [] then q else ''.'')
      else
        (let q = arrayJoin ''/''
                   (rev (normSegs (\<not> isAbsolute wd) (normSegs (\<not> isAbsolute wd) [] (segments wd))
                          (segments p))) in
         if isAbsolute wd then ''/'' @ q else if q \<noteq> [] then q else ''.''))"
  using assms normalizeString_under [of wd p]
  by (simp add: path_resolve_def Let_def normalizeString_slash)

lemma path_resolve_normalize:
  assumes "p \<noteq> []"
  shows "path_resolve wd [path_normalize p] = path_resolve wd [p]"
proof (cases "isAbsolute p")
  case True
  with assms show ?thesis
    by (simp add: path_resolve_single path_normalize_not_Nil isAbsolute_normalize
        normSegs_segments_normalize_abs)
next
  case False
  with assms show ?thesis
    by (simp add: path_resolve_single path_normalize_not_Nil isAbsolute_normalize
        normSegs_segments_normalize_rel)
qed

lemma path_relative_normalize:
  assumes "p \<noteq> []"
  shows "path_relative wd (path_normalize p) t = path_relative wd p t"
proof -
  have r: "path_resolve wd [path_normalize p] = path_resolve wd [p]"
    using assms by (rule path_resolve_normalize)
  show ?thesis
  proof (cases "path_normalize p = t")
    case True
    then have "path_resolve wd [p] = path_resolve wd [t]" using r by simp
    with True show ?thesis by (simp add: path_relative_def)
  next
    case False
    show ?thesis
    proof (cases "p = t")
      case True
      then have "path_resolve wd [path_normalize p] = path_resolve wd [t]" using r by simp
      with True show ?thesis by (simp add: path_relative_def)
    next
      case pt: False
      with False r show ?thesis by (simp add: path_relative_def)
    qed
  qed
qed

lemma path_resolve_absolute:
  "isAbsolute p \<Longrightarrow> path_resolve wd [p] = path_resolve wd' [p]"
  by (cases p) (simp_all add: isAbsolute_def path_resolve_def)

lemma path_relative_absolute:
  "isAbsolute p \<Longrightarrow> isAbsolute t \<Longrightarrow> path_relative wd p t = path_relative wd' p t"
  using path_resolve_absolute [of p wd wd'] path_resolve_absolute [of t wd wd']
  by (simp add: path_relative_def)

section \<open>Extensions and the paths of the manager\<close>

text \<open>
  \<open>path.extname\<close> returns the empty string or a string that starts with a dot. The version of
  \<open>getWebTestCommand\<close> that compares the extension with \<open>'html'\<close> and \<open>'php'\<close> therefore throws on
  every file path (\<open>getWebTestCommand_sep_checked_throws\<close>).
\<close>

lemma extname_cases: "extname p = [] \<or> (\<exists>e. extname p = CHR ''.'' # e)"
  by (simp add: extname_def Let_def)

lemma extname_suffix:
  assumes "c \<noteq> CHR ''/''" and "ext = ''.html'' \<or> ext = ''.php''"
  shows "extname (pre @ c # ext) = ext"
  using assms by (auto simp: extname_def Let_def)

lemma script_path: "path_join [''third_party'', ''blink'', ''tools'', ''run_web_tests.py'']
   = ''third_party/blink/tools/run_web_tests.py''"
  by (simp add: path_join_def path_normalize_def normalizeString_def normSegs_def normStep_def isAbsolute_def trailingSeparator_def)

lemma path_join_rootDir:
  assumes "r \<noteq> []"
  shows "path_join [r, ''third_party'', ''blink'', ''web_tests'']
         = path_normalize (r @ ''/third_party/blink/web_tests'')"
  using assms by (simp add: path_join_def)

lemma web_test_path_relative:
  assumes "r \<noteq> []"
  shows "path_relative wd (path_join [r, ''third_party'', ''blink'', ''web_tests'']) t
         = path_relative wd (r @ ''/third_party/blink/web_tests'') t"
  unfolding path_join_rootDir [OF assms] by (rule path_relative_normalize) simp

lemma isAbsolute_web_test_path:
  assumes "isAbsolute r"
  shows "isAbsolute (path_join [r, ''third_party'', ''blink'', ''web_tests''])"
proof -
  from assms have "r \<noteq> []" by (auto simp: isAbsolute_def)
  moreover from assms have "isAbsolute (r @ ''/third_party/blink/web_tests'')"
    by (cases r) (auto simp: isAbsolute_def)
  ultimately show ?thesis
    by (simp add: path_join_rootDir isAbsolute_normalize)
qed

lemma getWebTestCommand_sep_checked_throws:
  "getWebTestCommand_sep_checked wd m file_path =
     Inl (''Wrong extension('' @ extname file_path @ '') for web test. Expect .html or .php.'')"
  using extname_cases [of file_path] by (auto simp: getWebTestCommand_sep_checked_def)

section \<open>The methods compute what the functions of the fields compute\<close>

lemma getCompileCommand_method_result:
  "fst (getCompileCommand_method target_binary m) = Inr (getCompileCommand m target_binary)"
  by (simp add: getCompileCommand_method_def getCompileCommand_def andThen_def
      this_compileTarget_def returns_def)

lemma getWebTestCommand_method_result:
  "fst (getWebTestCommand_method wd file_path m) = getWebTestCommand wd m file_path"
  by (simp add: getWebTestCommand_method_def getWebTestCommand_def andThen_def Let_def
      this_rootDir_def this_compileTarget_def returns_def throws_def)

lemma getCppTestCommand_method_result:
  "fst (getCppTestCommand_method test_executable test_name m)
     = Inr (getCppTestCommand m test_executable test_name)"
  by (simp add: getCppTestCommand_method_def getCppTestCommand_def andThen_def Let_def
      this_rootDir_def this_compileTarget_def returns_def)

lemma getCompileCommand_method_frame: "snd (getCompileCommand_method target_binary m) = m"
  by (simp add: getCompileCommand_method_def andThen_def this_compileTarget_def returns_def)

lemma getWebTestCommand_method_frame: "snd (getWebTestCommand_method wd file_path m) = m"
  by (simp add: getWebTestCommand_method_def andThen_def Let_def
      this_rootDir_def this_compileTarget_def returns_def throws_def)

lemma getCppTestCommand_method_frame:
  "snd (getCppTestCommand_method test_executable test_name m) = m"
  by (simp add: getCppTestCommand_method_def andThen_def Let_def
      this_rootDir_def this_compileTarget_def returns_def)

lemma andThen_frame:
  assumes "snd (first m) = m" and "\<And>x. snd (rest x m) = m"
  shows "snd (andThen first rest m) = m"
proof (cases "first m")
  case (Pair r m')
  with assms(1) have "m' = m" by simp
  with Pair assms(2) show ?thesis by (cases r) (simp_all add: andThen_def)
qed

lemma getTestCommand_method_frame: "snd (getTestCommand_method h m) = m"
  unfolding getTestCommand_method_def
  by (intro andThen_frame getCompileCommand_method_frame getWebTestCommand_method_frame)
     (simp_all add: call_function_def returns_def)

lemma getTestCommand_method_result:
  "fst (getTestCommand_method h m) = getTestCommand h m"
proof -
  have c: "getCompileCommand_method ''content_shell'' m
             = (Inr (getCompileCommand m ''content_shell''), m)"
    using getCompileCommand_method_result [of "''content_shell''" m]
      getCompileCommand_method_frame [of "''content_shell''" m]
    by (simp add: prod_eq_iff)
  have w: "getWebTestCommand_method (cwd h) file_path m
             = (getWebTestCommand (cwd h) m file_path, m)" for file_path
    using getWebTestCommand_method_result [of "cwd h" file_path m]
      getWebTestCommand_method_frame [of "cwd h" file_path m]
    by (simp add: prod_eq_iff)
  show ?thesis
    by (simp add: getTestCommand_method_def andThen_def c w call_function_def returns_def
        getTestCommand_def split: sum.splits)
qed

lemma constructor_object:
  "snd (constructor r c m0)
     = \<lparr>rootDir = r, compileTarget = (case c of None \<Rightarrow> ''Default'' | Some t \<Rightarrow> t)\<rparr>"
  by (simp add: constructor_def andThen_def assign_rootDir_def assign_compileTarget_def)

section \<open>The claims\<close>

text \<open>
  C1. For every manager and every file path whose extension (\<open>path.extname\<close>) is \<open>.html\<close> or
  \<open>.php\<close>, \<open>getWebTestCommand\<close> returns
  \<open>third_party/blink/tools/run_web_tests.py -t <compileTarget> <test_path>\<close>, where \<open><test_path>\<close> is
  \<open>path.relative\<close> from the web test directory to the file path. The web test directory is
  \<open>path.join(rootDir, 'third_party', 'blink', 'web_tests')\<close>; for a non-empty \<open>rootDir\<close> the
  relative path is the same as the one from the string \<open>rootDir/third_party/blink/web_tests\<close>.
  The method has the same body in src/extension.ts and in unnamed/part_001.
\<close>

theorem getWebTestCommand_returns:
  assumes "extname file_path = ''.html'' \<or> extname file_path = ''.php''"
  shows "getWebTestCommand wd m file_path =
           Inr (''third_party/blink/tools/run_web_tests.py -t '' @ compileTarget m @ '' '' @
                path_relative wd
                  (path_join [rootDir m, ''third_party'', ''blink'', ''web_tests'']) file_path)
         \<and> (rootDir m \<noteq> [] \<longrightarrow>
              path_relative wd
                (path_join [rootDir m, ''third_party'', ''blink'', ''web_tests'']) file_path
              = path_relative wd (rootDir m @ ''/third_party/blink/web_tests'') file_path)"
proof
  from assms show "getWebTestCommand wd m file_path =
           Inr (''third_party/blink/tools/run_web_tests.py -t '' @ compileTarget m @ '' '' @
                path_relative wd
                  (path_join [rootDir m, ''third_party'', ''blink'', ''web_tests'']) file_path)"
    unfolding getWebTestCommand_def Let_def script_path by auto
next
  show "rootDir m \<noteq> [] \<longrightarrow>
              path_relative wd
                (path_join [rootDir m, ''third_party'', ''blink'', ''web_tests'']) file_path
              = path_relative wd (rootDir m @ ''/third_party/blink/web_tests'') file_path"
    by (simp add: web_test_path_relative)
qed

text \<open>A web test of a checkout in \<open>/home/u/chromium/src\<close>.\<close>

theorem getWebTestCommand_returns_witness:
  "extname ''/home/u/chromium/src/third_party/blink/web_tests/fast/dom/x.html'' = ''.html''
   \<and> rootDir manager0 \<noteq> []
   \<and> getWebTestCommand ''/w'' manager0
        ''/home/u/chromium/src/third_party/blink/web_tests/fast/dom/x.html''
      = Inr ''third_party/blink/tools/run_web_tests.py -t Default fast/dom/x.html''"
proof -
  let ?f = "''/home/u/chromium/src/third_party/blink/web_tests/fast/dom/x.html''"
  have e: "extname ?f = ''.html''" by (simp add: extname_def)
  then have "extname ?f = ''.html'' \<or> extname ?f = ''.php''" by simp
  from getWebTestCommand_returns [OF this, of "''/w''" manager0]
  have "getWebTestCommand ''/w'' manager0 ?f =
          Inr (''third_party/blink/tools/run_web_tests.py -t '' @ compileTarget manager0 @ '' '' @
               path_relative ''/w'' (rootDir manager0 @ ''/third_party/blink/web_tests'') ?f)"
    by (simp add: manager0_def)
  moreover have "path_relative ''/w'' (rootDir manager0 @ ''/third_party/blink/web_tests'') ?f
                 = ''fast/dom/x.html''"
    by (simp add: manager0_def path_relative_def path_resolve_def isAbsolute_def
        normalizeString_def normSegs_def normStep_def pathSegments_def)
  ultimately show ?thesis using e by (simp add: manager0_def)
qed

text \<open>
  C2, as stated, promises a command for every file path that ends in \<open>.html\<close> or \<open>.php\<close>.
  A path whose last component is exactly \<open>.html\<close> ends in \<open>.html\<close>, but \<open>path.extname\<close> returns
  the empty string for a component that starts with its only dot, and \<open>getWebTestCommand\<close>
  throws.
\<close>

theorem getWebTestCommand_dotfile_counterexample:
  "suffix ''.html'' ''/home/u/chromium/src/third_party/blink/web_tests/.html''
   \<and> getWebTestCommand ''/w'' manager0 ''/home/u/chromium/src/third_party/blink/web_tests/.html''
       = Inl ''Wrong extension() for web test. Expect .html or .php.''"
  by (simp add: getWebTestCommand_def extname_def suffix_def)

text \<open>
  C2, amended. \<open>getWebTestCommand\<close> of src/extension.ts throws if and only if \<open>path.extname\<close> of the
  file path is neither \<open>.html\<close> nor \<open>.php\<close>; it returns a command for every file path that ends
  in \<open>.html\<close> or \<open>.php\<close> with at least one more character, not a slash, before that ending.
\<close>

theorem getWebTestCommand_throws_iff:
  "((\<exists>e. getWebTestCommand wd m file_path = Inl e) \<longleftrightarrow>
      extname file_path \<noteq> ''.html'' \<and> extname file_path \<noteq> ''.php'')
   \<and> (c \<noteq> CHR ''/'' \<and> (ext = ''.html'' \<or> ext = ''.php'') \<longrightarrow>
        (\<exists>cmd. getWebTestCommand wd m (pre @ c # ext) = Inr cmd))"
proof
  show "(\<exists>e. getWebTestCommand wd m file_path = Inl e) \<longleftrightarrow>
      extname file_path \<noteq> ''.html'' \<and> extname file_path \<noteq> ''.php''"
    by (simp add: getWebTestCommand_def Let_def)
next
  show "c \<noteq> CHR ''/'' \<and> (ext = ''.html'' \<or> ext = ''.php'') \<longrightarrow>
        (\<exists>cmd. getWebTestCommand wd m (pre @ c # ext) = Inr cmd)"
  proof
    assume a: "c \<noteq> CHR ''/'' \<and> (ext = ''.html'' \<or> ext = ''.php'')"
    then have "extname (pre @ c # ext) = ext" by (simp add: extname_suffix)
    with a show "\<exists>cmd. getWebTestCommand wd m (pre @ c # ext) = Inr cmd"
      by (auto simp: getWebTestCommand_def Let_def)
  qed
qed

text \<open>A PHP test is accepted, a C++ source file is rejected.\<close>

theorem getWebTestCommand_throws_iff_witness:
  "CHR ''x'' \<noteq> CHR ''/'' \<and> (''.php'' = ''.html'' \<or> ''.php'' = ''.php'')
   \<and> (\<exists>cmd. getWebTestCommand ''/w'' manager0 (''/t/'' @ CHR ''x'' # ''.php'') = Inr cmd)
   \<and> (\<exists>e. getWebTestCommand ''/w'' manager0 ''/t/x.cc'' = Inl e)"
proof -
  have "extname ''/t/x.cc'' \<noteq> ''.html'' \<and> extname ''/t/x.cc'' \<noteq> ''.php''"
    by (simp add: extname_def)
  with getWebTestCommand_throws_iff [of "''/w''" manager0 "''/t/x.cc''"]
  have "\<exists>e. getWebTestCommand ''/w'' manager0 ''/t/x.cc'' = Inl e" by blast
  moreover have "\<exists>cmd. getWebTestCommand ''/w'' manager0 (''/t/'' @ CHR ''x'' # ''.php'') = Inr cmd"
    using getWebTestCommand_throws_iff [of "''/w''" manager0 _ "CHR ''x''" "''.php''" "''/t/''"]
    by simp
  ultimately show ?thesis by simp
qed

text \<open>
  C3. When the active editor shows a file whose extension is \<open>.html\<close> or \<open>.php\<close>,
  \<open>getWebTestCommand\<close> returns a command for it, and \<open>getTestCommand\<close> returns
  \<open>getCompileCommand("content_shell")\<close>, then \<open>" && "\<close>, then that command.
\<close>

theorem getTestCommand_concat:
  assumes "activeTextEditor h = Some file_path"
    and "extname file_path = ''.html'' \<or> extname file_path = ''.php''"
  shows "\<exists>web. getWebTestCommand (cwd h) m file_path = Inr web \<and>
           getTestCommand h m = Inr (getCompileCommand m ''content_shell'' @ '' && '' @ web)"
  using assms by (auto simp: getTestCommand_def getCurrentFilePath_def getWebTestCommand_def Let_def)

text \<open>The command for the file of the active editor.\<close>

theorem getTestCommand_concat_witness:
  "activeTextEditor host0 =
     Some ''/home/u/chromium/src/third_party/blink/web_tests/fast/dom/x.html''
   \<and> extname ''/home/u/chromium/src/third_party/blink/web_tests/fast/dom/x.html'' = ''.html''
   \<and> getTestCommand host0 manager0 =
       Inr ''autoninja -C out/Default content_shell && third_party/blink/tools/run_web_tests.py -t Default fast/dom/x.html''"
proof -
  let ?f = "''/home/u/chromium/src/third_party/blink/web_tests/fast/dom/x.html''"
  have a: "activeTextEditor host0 = Some ?f" by (simp add: host0_def)
  have e: "extname ?f = ''.html''" by (simp add: extname_def)
  then have "extname ?f = ''.html'' \<or> extname ?f = ''.php''" by simp
  from getTestCommand_concat [OF a this, of manager0]
  obtain web where w: "getWebTestCommand (cwd host0) manager0 ?f = Inr web"
    and t: "getTestCommand host0 manager0 =
              Inr (getCompileCommand manager0 ''content_shell'' @ '' && '' @ web)"
    by blast
  have "getWebTestCommand (cwd host0) manager0 ?f =
          Inr ''third_party/blink/tools/run_web_tests.py -t Default fast/dom/x.html''"
    using e
    by (simp add: getWebTestCommand_def host0_def manager0_def script_path path_join_rootDir
        path_normalize_def trailingSeparator_def
        path_relative_def path_resolve_def isAbsolute_def
        normalizeString_def normSegs_def normStep_def pathSegments_def)
  with w have "web = ''third_party/blink/tools/run_web_tests.py -t Default fast/dom/x.html''"
    by simp
  with t a e show ?thesis by (simp add: getCompileCommand_def manager0_def)
qed

text \<open>
  C4. \<open>getCompileCommand(target_binary)\<close> is exactly
  \<open>autoninja -C out/<compileTarget> <target_binary>\<close>.
\<close>

theorem getCompileCommand_string:
  "getCompileCommand m target_binary =
     ''autoninja -C out/'' @ compileTarget m @ '' '' @ target_binary"
  by (simp add: getCompileCommand_def)

text \<open>
  C5. \<open>getCppTestCommand(test_executable, test_name)\<close> is \<open><p> --gtest_filter=<test_name>\<close>, where
  \<open><p>\<close> is \<open>path.join(rootDir, 'out', compileTarget, test_executable)\<close>. It has a value for
  every manager and every pair of strings, and a call of the method returns it: nothing is
  thrown.
\<close>

theorem getCppTestCommand_string:
  "getCppTestCommand m test_executable test_name =
     path_join [rootDir m, ''out'', compileTarget m, test_executable]
       @ '' --gtest_filter='' @ test_name
   \<and> fst (invoke h (GetCppTestCommand test_executable test_name) m) =
       Inr (path_join [rootDir m, ''out'', compileTarget m, test_executable]
              @ '' --gtest_filter='' @ test_name)"
  by (simp add: getCppTestCommand_method_result) (simp add: getCppTestCommand_def)

text \<open>
  C6. The constructor assigns \<open>rootDir\<close> and \<open>compileTarget\<close>, and these two strings are the whole
  state of a manager: whatever the object was before, after the constructor it is the manager
  with those two fields. The bodies of \<open>getCompileCommand\<close>, \<open>getWebTestCommand\<close>,
  \<open>getCppTestCommand\<close> and \<open>getTestCommand\<close>, run on the object, leave it as it was, for every
  argument, whether the call returns or throws; what they return or throw is what the
  functions of the fields give.
\<close>

theorem methods_frame:
  "snd (getCompileCommand_method target_binary m) = m
   \<and> snd (getWebTestCommand_method wd file_path m) = m
   \<and> snd (getCppTestCommand_method test_executable test_name m) = m
   \<and> snd (getTestCommand_method h m) = m
   \<and> fst (getCompileCommand_method target_binary m) = Inr (getCompileCommand m target_binary)
   \<and> fst (getWebTestCommand_method wd file_path m) = getWebTestCommand wd m file_path
   \<and> fst (getCppTestCommand_method test_executable test_name m)
       = Inr (getCppTestCommand m test_executable test_name)
   \<and> fst (getTestCommand_method h m) = getTestCommand h m
   \<and> snd (constructor (rootDir m) (Some (compileTarget m)) m0) = m"
  by (simp add: getCompileCommand_method_frame getWebTestCommand_method_frame
      getCppTestCommand_method_frame getTestCommand_method_frame
      getCompileCommand_method_result getWebTestCommand_method_result
      getCppTestCommand_method_result getTestCommand_method_result constructor_object)

text \<open>
  C7, as stated, lets the commands depend on nothing but the manager's fields and the
  arguments. \<open>path.relative\<close> resolves a relative path against the working directory of the
  process: the same manager and the same relative file path give two different commands in
  two working directories.
\<close>

theorem getWebTestCommand_cwd_counterexample:
  "getWebTestCommand ''/a'' \<lparr>rootDir = ''/src'', compileTarget = ''Default''\<rparr> ''x.html''
     = Inr ''third_party/blink/tools/run_web_tests.py -t Default ../../../../a/x.html''
   \<and> getWebTestCommand ''/b'' \<lparr>rootDir = ''/src'', compileTarget = ''Default''\<rparr> ''x.html''
     = Inr ''third_party/blink/tools/run_web_tests.py -t Default ../../../../b/x.html''
   \<and> getWebTestCommand ''/a'' \<lparr>rootDir = ''/src'', compileTarget = ''Default''\<rparr> ''x.html''
     \<noteq> getWebTestCommand ''/b'' \<lparr>rootDir = ''/src'', compileTarget = ''Default''\<rparr> ''x.html''"
proof -
  let ?m = "\<lparr>rootDir = ''/src'', compileTarget = ''Default''\<rparr>"
  have a: "getWebTestCommand ''/a'' ?m ''x.html''
     = Inr ''third_party/blink/tools/run_web_tests.py -t Default ../../../../a/x.html''"
    by (simp add: getWebTestCommand_def extname_def script_path path_join_rootDir
        path_normalize_def trailingSeparator_def
        path_relative_def path_resolve_def isAbsolute_def
        normalizeString_def normSegs_def normStep_def pathSegments_def)
  have b: "getWebTestCommand ''/b'' ?m ''x.html''
     = Inr ''third_party/blink/tools/run_web_tests.py -t Default ../../../../b/x.html''"
    by (simp add: getWebTestCommand_def extname_def script_path path_join_rootDir
        path_normalize_def trailingSeparator_def
        path_relative_def path_resolve_def isAbsolute_def
        normalizeString_def normSegs_def normStep_def pathSegments_def)
  show ?thesis unfolding a b by simp
qed

text \<open>
  C7, amended. Two managers with equal \<open>rootDir\<close> and equal \<open>compileTarget\<close> give equal results
  on equal arguments: \<open>getCompileCommand\<close> and \<open>getCppTestCommand\<close> always, \<open>getWebTestCommand\<close>
  in the same working directory, and in any two working directories when \<open>rootDir\<close> and the
  file path are absolute.
\<close>

theorem commands_deterministic:
  assumes "rootDir m1 = rootDir m2" and "compileTarget m1 = compileTarget m2"
  shows "getCompileCommand m1 target_binary = getCompileCommand m2 target_binary
     \<and> getCppTestCommand m1 test_executable test_name
         = getCppTestCommand m2 test_executable test_name
     \<and> getWebTestCommand wd m1 file_path = getWebTestCommand wd m2 file_path
     \<and> (isAbsolute (rootDir m1) \<and> isAbsolute file_path \<longrightarrow>
          getWebTestCommand wd m1 file_path = getWebTestCommand wd' m2 file_path)"
proof -
  from assms have eq: "m1 = m2" by simp
  have "isAbsolute (rootDir m2) \<and> isAbsolute file_path \<longrightarrow>
          getWebTestCommand wd m2 file_path = getWebTestCommand wd' m2 file_path"
  proof
    assume a: "isAbsolute (rootDir m2) \<and> isAbsolute file_path"
    then have "isAbsolute (path_join [rootDir m2, ''third_party'', ''blink'', ''web_tests''])"
      by (simp add: isAbsolute_web_test_path)
    with a have "path_relative wd
                   (path_join [rootDir m2, ''third_party'', ''blink'', ''web_tests'']) file_path
               = path_relative wd'
                   (path_join [rootDir m2, ''third_party'', ''blink'', ''web_tests'']) file_path"
      by (simp add: path_relative_absolute)
    then show "getWebTestCommand wd m2 file_path = getWebTestCommand wd' m2 file_path"
      by (simp add: getWebTestCommand_def Let_def)
  qed
  with eq show ?thesis by simp
qed

text \<open>Absolute paths in two working directories.\<close>

theorem commands_deterministic_witness:
  "rootDir manager0 = rootDir \<lparr>rootDir = ''/home/u/chromium/src'', compileTarget = ''Default''\<rparr>
   \<and> compileTarget manager0
       = compileTarget \<lparr>rootDir = ''/home/u/chromium/src'', compileTarget = ''Default''\<rparr>
   \<and> isAbsolute (rootDir manager0) \<and> isAbsolute ''/t/x.html''
   \<and> getWebTestCommand ''/a'' manager0 ''/t/x.html''
       = getWebTestCommand ''/b''
           \<lparr>rootDir = ''/home/u/chromium/src'', compileTarget = ''Default''\<rparr> ''/t/x.html''"
proof -
  let ?m = "\<lparr>rootDir = ''/home/u/chromium/src'', compileTarget = ''Default''\<rparr>"
  have r: "rootDir manager0 = rootDir ?m" and c: "compileTarget manager0 = compileTarget ?m"
    by (simp_all add: manager0_def)
  have a: "isAbsolute (rootDir manager0) \<and> isAbsolute ''/t/x.html''"
    by (simp add: manager0_def isAbsolute_def)
  with commands_deterministic [OF r c, of _ _ _ "''/a''" "''/t/x.html''" "''/b''"]
  have "getWebTestCommand ''/a'' manager0 ''/t/x.html''
          = getWebTestCommand ''/b'' ?m ''/t/x.html''"
    by blast
  with r c a show ?thesis by simp
qed

text \<open>
  C8. A command wrapped by \<open>wrapException\<close> or by \<open>wrap_exception\<close> returns normally, whatever
  the inner command does. When the inner command throws \<open>e\<close>, the wrapper shows one more
  information message, \<open>vscode-chromium-test error: e\<close> respectively \<open>vscode-chromium-test: e\<close>.
\<close>

theorem wrapException_catches:
  "fst (wrapException f h) = Inr ()
   \<and> fst (wrap_exception f h) = Inr ()
   \<and> (f h = (Inl e, h') \<longrightarrow>
        informationMessages (snd (wrapException f h))
          = informationMessages h' @ [''vscode-chromium-test error: '' @ e]
        \<and> informationMessages (snd (wrap_exception f h))
          = informationMessages h' @ [''vscode-chromium-test: '' @ e]
        \<and> prefix ''vscode-chromium-test'' (last (informationMessages (snd (wrapException f h))))
        \<and> prefix ''vscode-chromium-test'' (last (informationMessages (snd (wrap_exception f h)))))"
  by (cases "f h"; cases "fst (f h)")
     (auto simp: wrapException_def wrap_exception_def log_def)

text \<open>The copy command in a window with no active editor.\<close>

theorem wrapException_catches_witness:
  "copyWebTestCommand manager0 host1 = (Inl ''No active editor'', host1)
   \<and> fst (wrapException (copyWebTestCommand manager0) host1) = Inr ()
   \<and> fst (wrap_exception (copyWebTestCommand manager0) host1) = Inr ()
   \<and> informationMessages (snd (wrapException (copyWebTestCommand manager0) host1))
       = [''vscode-chromium-test error: No active editor'']
   \<and> informationMessages (snd (wrap_exception (copyWebTestCommand manager0) host1))
       = [''vscode-chromium-test: No active editor'']"
proof -
  let ?f = "copyWebTestCommand manager0"
  have f: "?f host1 = (Inl ''No active editor'', host1)"
    by (simp add: copyWebTestCommand_def getTestCommand_def getCurrentFilePath_def host1_def)
  from wrapException_catches [of ?f host1 "''No active editor''" host1] f
  have "fst (wrapException ?f host1) = Inr ()"
    and "fst (wrap_exception ?f host1) = Inr ()"
    and "informationMessages (snd (wrapException ?f host1))
          = informationMessages host1 @ [''vscode-chromium-test error: '' @ ''No active editor'']"
    and "informationMessages (snd (wrap_exception ?f host1))
          = informationMessages host1 @ [''vscode-chromium-test: '' @ ''No active editor'']"
    by blast+
  with f show ?thesis by (simp add: host1_def)
qed

text \<open>
  C9. For a manager whose \<open>rootDir\<close> is normalized and a file path whose extension is \<open>.html\<close>
  or \<open>.php\<close>, the method that builds its paths with \<open>path.join\<close> and the earlier one that joins
  the components with \<open>path.sep\<close> return the same command.
\<close>

theorem getWebTestCommand_join_sep_agree:
  assumes "path_normalize (rootDir m) = rootDir m"
    and "extname file_path = ''.html'' \<or> extname file_path = ''.php''"
  shows "getWebTestCommand wd m file_path = Inr (getWebTestCommand_sep wd m file_path)"
proof -
  from assms(1) have "rootDir m \<noteq> []"
    by (auto simp: path_normalize_def)
  then have "path_relative wd
               (path_join [rootDir m, ''third_party'', ''blink'', ''web_tests'']) file_path
             = path_relative wd
               (arrayJoin sep [rootDir m, ''third_party'', ''blink'', ''web_tests'']) file_path"
    by (simp add: web_test_path_relative sep_def)
  with assms(2) show ?thesis
    by (auto simp: getWebTestCommand_def getWebTestCommand_sep_def Let_def script_path sep_def)
qed

text \<open>Both methods on the same web test.\<close>

theorem getWebTestCommand_join_sep_agree_witness:
  "path_normalize (rootDir manager0) = rootDir manager0
   \<and> extname ''/home/u/chromium/src/third_party/blink/web_tests/fast/dom/x.html'' = ''.html''
   \<and> getWebTestCommand ''/w'' manager0
        ''/home/u/chromium/src/third_party/blink/web_tests/fast/dom/x.html''
      = Inr (getWebTestCommand_sep ''/w'' manager0
          ''/home/u/chromium/src/third_party/blink/web_tests/fast/dom/x.html'')"
proof -
  let ?f = "''/home/u/chromium/src/third_party/blink/web_tests/fast/dom/x.html''"
  have n: "path_normalize (rootDir manager0) = rootDir manager0"
    by (simp add: manager0_def path_normalize_def trailingSeparator_def isAbsolute_def
        normalizeString_def normSegs_def normStep_def)
  have e: "extname ?f = ''.html''" by (simp add: extname_def)
  then have "extname ?f = ''.html'' \<or> extname ?f = ''.php''" by simp
  from getWebTestCommand_join_sep_agree [OF n this, of "''/w''"] n e
  show ?thesis by simp
qed

text \<open>
  C10. \<open>getBrowserTestCommand\<close> is the empty string for every manager and every file path; it
  has a value everywhere, nothing is thrown.
\<close>

theorem getBrowserTestCommand_empty:
  "getBrowserTestCommand m file_path = ''''"
  by (simp add: getBrowserTestCommand_def)

end
